theory Spec2Isabelle
  imports Complex_Main "HOL-Library.Sublist"
begin

section \<open>Errors and configuration\<close>

text \<open>
  The application configuration is the dictionary loaded from the YAML file. The keys the
  orchestrator reads all hold numbers, so the dictionary is a map from key names to reals.
  Python exceptions are values of \<open>error\<close>, carrying the message or the missing key;
  \<open>RuntimeError\<close> stands for whatever an external library raises.
\<close>

datatype error = ValueError string | KeyError string | RuntimeError string

type_synonym config = "string \<rightharpoonup> real"

text \<open>\<^verbatim>\<open>config.get(key, default)\<close> and \<^verbatim>\<open>config[key]\<close>.\<close>

definition config_get :: "config \<Rightarrow> string \<Rightarrow> real \<Rightarrow> real" where
  "config_get cfg k d = (case cfg k of None \<Rightarrow> d | Some v \<Rightarrow> v)"

definition config_item :: "config \<Rightarrow> string \<Rightarrow> error + real" where
  "config_item cfg k = (case cfg k of None \<Rightarrow> Inl (KeyError k) | Some v \<Rightarrow> Inr v)"

definition required_keys :: "string list" where
  "required_keys = [''fps'', ''pre_event_seconds'', ''post_event_seconds'']"

text \<open>The loop of \<^verbatim>\<open>_validate_config\<close> over the required keys: the first missing key raises.\<close>

fun check_required :: "config \<Rightarrow> string list \<Rightarrow> error + unit" where
  "check_required cfg [] = Inr ()"
| "check_required cfg (k # ks) =
     (if cfg k = None then Inl (ValueError (''Missing required configuration key: '' @ k))
      else check_required cfg ks)"

definition validate_config :: "config \<Rightarrow> error + unit" where
  "validate_config cfg =
     (case check_required cfg required_keys of
        Inl e \<Rightarrow> Inl e
      | Inr _ \<Rightarrow>
         (case config_item cfg ''fps'' of
            Inl e \<Rightarrow> Inl e
          | Inr fps \<Rightarrow>
             if \<not> (1 \<le> fps \<and> fps \<le> 60) then Inl (ValueError ''FPS must be between 1 and 60'')
             else
              (case config_item cfg ''pre_event_seconds'' of
                 Inl e \<Rightarrow> Inl e
               | Inr pre \<Rightarrow>
                  if pre < 0 then Inl (ValueError ''Pre-event seconds cannot be negative'')
                  else
                   (case config_item cfg ''post_event_seconds'' of
                      Inl e \<Rightarrow> Inl e
                    | Inr post \<Rightarrow>
                       if post < 0 then Inl (ValueError ''Post-event seconds cannot be negative'')
                       else Inr ()))))"

section \<open>The orchestrator \<^verbatim>\<open>CanAI\<close>\<close>

text \<open>
  The fields of a \<^verbatim>\<open>CanAI\<close> object that its methods read or write. The collaborators
  (camera, detector, recorder, stream handler) are external; what they hand to
  \<^verbatim>\<open>_handle_detection\<close> is an argument of the model. \<open>recorder_threads\<close> holds the recorder
  threads that were started and have not finished, each with the list of pre-event frames
  it was given.
\<close>

record 'f canai =
  config :: config
  recorded_detection :: bool
  frame_counter :: int
  start_time :: real
  last_detection_time :: real
  recording_in_progress :: bool
  recorder_threads :: "'f list list"

text \<open>\<^verbatim>\<open>__init__\<close>: the fields are set, then the configuration is validated.\<close>

definition CanAI_init :: "config \<Rightarrow> real \<Rightarrow> error + 'f canai" where
  "CanAI_init cfg now =
     (case validate_config cfg of
        Inl e \<Rightarrow> Inl e
      | Inr _ \<Rightarrow>
          Inr \<lparr>config = cfg, recorded_detection = False, frame_counter = 0, start_time = now,
               last_detection_time = 0, recording_in_progress = False, recorder_threads = []\<rparr>)"

text \<open>
  \<^verbatim>\<open>_handle_detection\<close>. \<open>current_time\<close> is the reading of \<^verbatim>\<open>time.time()\<close>, \<open>confidence\<close>
  the array returned by the detector, \<open>queue\<close> the contents of the stream handler's frame
  buffer at that moment. \<^verbatim>\<open>(confidence >= x).any()\<close> is \<open>list_ex\<close>,
  \<^verbatim>\<open>(confidence < x).all()\<close> is \<open>list_all\<close>. The two \<^verbatim>\<open>elif\<close> branches belong to the
  inner \<^verbatim>\<open>if\<close>, as the source indents them.
\<close>

definition handle_detection :: "real \<Rightarrow> real list \<Rightarrow> 'f list \<Rightarrow> 'f canai \<Rightarrow> error + 'f canai" where
  "handle_detection current_time confidence queue s =
     (let high_threshold = config_get (config s) ''detection_threshold'' (7 / 10);
          low_threshold = config_get (config s) ''low_detection_threshold'' (3 / 10)
      in if list_ex (\<lambda>c. high_threshold \<le> c) confidence \<and> \<not> recording_in_progress s then
           (case config_item (config s) ''pre_event_seconds'' of
              Inl e \<Rightarrow> Inl e
            | Inr pre \<Rightarrow>
               if current_time - last_detection_time s > pre then
                 Inr (s\<lparr>recording_in_progress := True,
                        recorder_threads := recorder_threads s @ [queue],
                        last_detection_time := current_time\<rparr>)
               else if list_ex (\<lambda>c. low_threshold \<le> c) confidence then
                 Inr (s\<lparr>last_detection_time := current_time\<rparr>)
               else if list_all (\<lambda>c. c < low_threshold) confidence then
                 Inr (s\<lparr>recorded_detection := False\<rparr>)
               else Inr s)
         else Inr s)"

text \<open>
  \<^verbatim>\<open>_record_clip\<close> runs in the recorder thread; when the recorder returns, the thread
  clears \<open>recording_in_progress\<close> and ends.
\<close>

definition record_clip_finished :: "'f canai \<Rightarrow> 'f canai" where
  "record_clip_finished s =
     s\<lparr>recording_in_progress := False, recorder_threads := tl (recorder_threads s)\<rparr>"

text \<open>
  What happens to the orchestrator over time: the main loop handles a frame, or a running
  recorder thread finishes. A \<open>RecorderDone\<close> with no thread running is not a possible
  event and leaves the state as it is.
\<close>

datatype 'f activity = Frame real "real list" "'f list" | RecorderDone

fun step :: "'f canai \<Rightarrow> 'f activity \<Rightarrow> error + 'f canai" where
  "step s (Frame current_time confidence queue) = handle_detection current_time confidence queue s"
| "step s RecorderDone = (if recorder_threads s = [] then Inr s else Inr (record_clip_finished s))"

fun run_activities :: "'f canai \<Rightarrow> 'f activity list \<Rightarrow> error + 'f canai" where
  "run_activities s [] = Inr s"
| "run_activities s (a # as) =
     (case step s a of Inl e \<Rightarrow> Inl e | Inr s' \<Rightarrow> run_activities s' as)"

text \<open>A configuration of the shape of the repository's \<^verbatim>\<open>app_config.yaml\<close>, with the thresholds left to their defaults.\<close>

definition sample_config :: config where
  "sample_config = [''fps'' \<mapsto> 30, ''pre_event_seconds'' \<mapsto> 2, ''post_event_seconds'' \<mapsto> 5]"

section \<open>The earlier orchestrator \<^verbatim>\<open>ObjectDetectionApp\<close>\<close>

text \<open>
  The body of the main loop of \<^verbatim>\<open>ObjectDetectionApp.run\<close> for one frame: \<open>detected\<close> is the
  detector's flag, \<open>queue\<close> the contents of the frame buffer. The threads it starts are
  collected in \<open>app_threads\<close>.
\<close>

record 'f object_detection_app =
  app_recorded_detection :: bool
  app_threads :: "'f list list"

definition app_handle_frame :: "bool \<Rightarrow> 'f list \<Rightarrow> 'f object_detection_app \<Rightarrow> 'f object_detection_app" where
  "app_handle_frame detected queue a =
     (if detected \<and> \<not> app_recorded_detection a then
        a\<lparr>app_threads := app_threads a @ [queue], app_recorded_detection := True\<rparr>
      else if \<not> detected then a\<lparr>app_recorded_detection := False\<rparr>
      else a)"


section \<open>The stream handler \<^verbatim>\<open>VideoStreamHandler\<close>\<close>

text \<open>
  \<^verbatim>\<open>queue.Queue(maxsize)\<close> as the list of its items, oldest first. A queue whose
  \<open>maxsize\<close> is zero or negative is unbounded and never full. \<^verbatim>\<open>get()\<close> on an empty
  queue and \<^verbatim>\<open>put()\<close> on a full one block; no other thread puts into or takes from this
  queue, so a blocked call never returns: the result is \<open>None\<close>.
\<close>

definition queue_full :: "int \<Rightarrow> 'f list \<Rightarrow> bool" where
  "queue_full maxsize q \<longleftrightarrow> 0 < maxsize \<and> maxsize \<le> int (length q)"

definition queue_get :: "'f list \<Rightarrow> ('f \<times> 'f list) option" where
  "queue_get q = (case q of [] \<Rightarrow> None | x # q' \<Rightarrow> Some (x, q'))"

definition queue_put :: "int \<Rightarrow> 'f list \<Rightarrow> 'f \<Rightarrow> 'f list option" where
  "queue_put maxsize q x = (if queue_full maxsize q then None else Some (q @ [x]))"

text \<open>
  The fields of the handler that \<^verbatim>\<open>add_frame\<close> touches. \<open>maxsize\<close> is the
  \<open>max_pre_frames\<close> the queue was created with.
\<close>

record 'f video_stream_handler =
  maxsize :: int
  frame_buffer :: "'f list"
  current_frame :: "'f option"
  frame_timestamps :: "real list"

definition VideoStreamHandler_init :: "int \<Rightarrow> 'f video_stream_handler" where
  "VideoStreamHandler_init max_pre_frames =
     \<lparr>maxsize = max_pre_frames, frame_buffer = [], current_frame = None, frame_timestamps = []\<rparr>"

text \<open>
  \<^verbatim>\<open>_maintain_buffer\<close>: while the oldest timestamp is more than two seconds old, take one
  item from the queue and drop that timestamp. \<open>now\<close> is the reading of the clock; the
  readings taken within one call of \<^verbatim>\<open>add_frame\<close>, which holds the lock and does no
  input or output, are taken to be the same instant.
\<close>

fun maintain_buffer :: "real \<Rightarrow> 'f list \<Rightarrow> real list \<Rightarrow> ('f list \<times> real list) option" where
  "maintain_buffer now q [] = Some (q, [])"
| "maintain_buffer now q (t # ts) =
     (if now - t > 2 then
        (case queue_get q of None \<Rightarrow> None | Some (_, q') \<Rightarrow> maintain_buffer now q' ts)
      else Some (q, t # ts))"

definition add_frame :: "real \<Rightarrow> 'f \<Rightarrow> 'f video_stream_handler \<Rightarrow> 'f video_stream_handler option" where
  "add_frame now frame h =
     (case maintain_buffer now (frame_buffer h) (frame_timestamps h) of
        None \<Rightarrow> None
      | Some (q, ts) \<Rightarrow>
         (case (if queue_full (maxsize h) q then map_option snd (queue_get q) else Some q) of
            None \<Rightarrow> None
          | Some q' \<Rightarrow>
             (case queue_put (maxsize h) q' frame of
                None \<Rightarrow> None
              | Some q'' \<Rightarrow>
                  Some (h\<lparr>frame_buffer := q'', frame_timestamps := ts @ [now],
                          current_frame := Some frame\<rparr>))))"

text \<open>A sequence of \<^verbatim>\<open>add_frame\<close> calls, each with the clock reading it sees.\<close>

fun add_frames :: "(real \<times> 'f) list \<Rightarrow> 'f video_stream_handler \<Rightarrow> 'f video_stream_handler option" where
  "add_frames [] h = Some h"
| "add_frames ((now, frame) # calls) h =
     (case add_frame now frame h of None \<Rightarrow> None | Some h' \<Rightarrow> add_frames calls h')"

text \<open>
  The buffering of the earlier handler (\<^verbatim>\<open>src/stream/video_stream_handler.py\<close>, in
  \<^verbatim>\<open>run\<close>): \<^verbatim>\<open>put_nowait\<close>, and on \<^verbatim>\<open>queue.Full\<close> one \<^verbatim>\<open>get_nowait\<close> followed by
  \<^verbatim>\<open>put_nowait\<close> again. These calls raise instead of blocking; \<open>None\<close> stands for the
  exception leaving the buffering code.
\<close>

definition buffer_frame :: "int \<Rightarrow> 'f list \<Rightarrow> 'f \<Rightarrow> 'f list option" where
  "buffer_frame max_pre_frames q frame =
     (case queue_put max_pre_frames q frame of
        Some q' \<Rightarrow> Some q'
      | None \<Rightarrow>
         (case queue_get q of
            None \<Rightarrow> None
          | Some (_, q') \<Rightarrow> queue_put max_pre_frames q' frame))"

text \<open>\<^verbatim>\<open>_get_timed_frames\<close>: the buffered frames zipped with the timestamps.\<close>

definition get_timed_frames :: "'f video_stream_handler \<Rightarrow> ('f \<times> real) list" where
  "get_timed_frames h = zip (frame_buffer h) (frame_timestamps h)"

section \<open>The clip recorder \<^verbatim>\<open>EventClipRecorder\<close>\<close>

text \<open>
  What a call of \<^verbatim>\<open>record_clip\<close> does to the outside is the list of its effects, in order:
  the output directory is made, the video writer (the sink) is created for the size of a
  frame, a frame is written, the live frame is fetched, the thread sleeps, the writer is
  released, a message is logged at some level.
\<close>

datatype level = INFO | WARNING | ERROR

datatype 'f effect =
    MakeDirs
  | is_Open: Open 'f
  | is_Write: Write 'f
  | Fetch
  | Sleep
  | Release
  | Log level

datatype status = Returned | Raised

text \<open>The frames written to the sink, in order.\<close>

fun written :: "'f effect list \<Rightarrow> 'f list" where
  "written [] = []"
| "written (Write f # es) = f # written es"
| "written (e # es) = written es"

record event_clip_recorder =
  fps :: int
  post_event_seconds :: int

text \<open>
  The outside world of one call: whether making the directory or creating the writer
  raises, whether the writer reports itself opened, and the frames on which
  \<^verbatim>\<open>write\<close> raises.
\<close>

record 'f recorder_env =
  makedirs_raises :: bool
  open_raises :: bool
  is_opened :: bool
  write_raises :: "'f \<Rightarrow> bool"

subsection \<open>The recorder of the package (\<^verbatim>\<open>canai/project_utils/video_recorder.py\<close>)\<close>

text \<open>\<^verbatim>\<open>for frame in pre_event_frames: video_writer.write(frame)\<close>\<close>

fun write_pre_frames :: "'f recorder_env \<Rightarrow> 'f list \<Rightarrow> 'f effect list \<times> status" where
  "write_pre_frames E [] = ([], Returned)"
| "write_pre_frames E (f # fs) =
     (if write_raises E f then ([], Raised)
      else (case write_pre_frames E fs of (tr, st) \<Rightarrow> (Write f # tr, st)))"

text \<open>
  One round of the post-event loop: fetch the live frame, write it if there is one, sleep
  for \<^verbatim>\<open>1/self.fps\<close>. The division raises for a frame rate of zero and \<^verbatim>\<open>time.sleep\<close> raises
  for a negative length.
\<close>

definition post_round :: "event_clip_recorder \<Rightarrow> 'f recorder_env \<Rightarrow> 'f option \<Rightarrow> 'f effect list \<times> status" where
  "post_round R E fetched =
     (case fetched of
        None \<Rightarrow> if fps R \<le> 0 then ([Fetch], Raised) else ([Fetch, Sleep], Returned)
      | Some f \<Rightarrow>
          if write_raises E f then ([Fetch], Raised)
          else if fps R \<le> 0 then ([Fetch, Write f], Raised)
          else ([Fetch, Write f, Sleep], Returned))"

text \<open>
  \<^verbatim>\<open>while time.time() - start_time < self.post_event_seconds\<close>. The clock is outside the
  program: each test of the loop takes the next pair of \<open>ticks\<close>, the reading of the clock
  at the test and what \<^verbatim>\<open>get_current_frame()\<close> returns in the round that follows. When the
  readings run out before the test fails the loop is still running: \<open>None\<close>.
\<close>

fun post_loop :: "event_clip_recorder \<Rightarrow> 'f recorder_env \<Rightarrow> real \<Rightarrow> (real \<times> 'f option) list
                  \<Rightarrow> ('f effect list \<times> status) option" where
  "post_loop R E start [] = None"
| "post_loop R E start ((t, fetched) # ticks) =
     (if t - start < real_of_int (post_event_seconds R) then
        (case post_round R E fetched of
           (tr, Raised) \<Rightarrow> Some (tr, Raised)
         | (tr, Returned) \<Rightarrow>
            (case post_loop R E start ticks of
               None \<Rightarrow> None
             | Some (tr', st) \<Rightarrow> Some (tr @ tr', st)))
      else Some ([], Returned))"

text \<open>The body of the \<^verbatim>\<open>try\<close> block.\<close>

definition record_clip_try :: "event_clip_recorder \<Rightarrow> 'f recorder_env \<Rightarrow> 'f list \<Rightarrow> real
                  \<Rightarrow> (real \<times> 'f option) list \<Rightarrow> ('f effect list \<times> status) option" where
  "record_clip_try R E pre_event_frames start ticks =
     (if makedirs_raises E then Some ([], Raised)
      else
       (case pre_event_frames of
          [] \<Rightarrow> Some ([MakeDirs, Log WARNING], Returned)
        | first # _ \<Rightarrow>
           if open_raises E then Some ([MakeDirs], Raised)
           else
            (case write_pre_frames E pre_event_frames of
               (tr1, Raised) \<Rightarrow> Some (MakeDirs # Open first # tr1, Raised)
             | (tr1, Returned) \<Rightarrow>
                (case post_loop R E start ticks of
                   None \<Rightarrow> None
                 | Some (tr2, Raised) \<Rightarrow> Some (MakeDirs # Open first # tr1 @ tr2, Raised)
                 | Some (tr2, Returned) \<Rightarrow>
                     Some (MakeDirs # Open first # tr1 @ tr2 @ [Log INFO], Returned)))))"

text \<open>
  \<^verbatim>\<open>record_clip\<close>: the \<^verbatim>\<open>try\<close> block, the \<^verbatim>\<open>except Exception\<close> clause that logs the error,
  and the \<^verbatim>\<open>finally\<close> clause that releases the writer when \<^verbatim>\<open>video_writer\<close> has been
  assigned, that is, when the writer was created.
\<close>

definition record_clip :: "event_clip_recorder \<Rightarrow> 'f recorder_env \<Rightarrow> 'f list \<Rightarrow> real
                  \<Rightarrow> (real \<times> 'f option) list \<Rightarrow> 'f effect list option" where
  "record_clip R E pre_event_frames start ticks =
     (case record_clip_try R E pre_event_frames start ticks of
        None \<Rightarrow> None
      | Some (tr, st) \<Rightarrow>
          Some (tr @ (if st = Raised then [Log ERROR] else [])
                   @ (if list_ex is_Open tr then [Release] else [])))"

subsection \<open>The earlier recorder (\<^verbatim>\<open>project_utils/video_recorder.py\<close>)\<close>

text \<open>
  \<^verbatim>\<open>_sync_frame_rate\<close> sleeps for a length that is never negative. \<^verbatim>\<open>_write_frames\<close> and
  \<^verbatim>\<open>_write_post_frames\<close> first compute \<^verbatim>\<open>1.0 / self.fps\<close>, which raises for a frame rate of
  zero. Nothing in this recorder catches an exception.
\<close>

fun write_each :: "'f recorder_env \<Rightarrow> 'f list \<Rightarrow> 'f effect list \<times> status" where
  "write_each E [] = ([], Returned)"
| "write_each E (f # fs) =
     (if write_raises E f then ([], Raised)
      else (case write_each E fs of (tr, st) \<Rightarrow> (Write f # Sleep # tr, st)))"

definition write_frames :: "event_clip_recorder \<Rightarrow> 'f recorder_env \<Rightarrow> 'f list \<Rightarrow> 'f effect list \<times> status" where
  "write_frames R E frames = (if fps R = 0 then ([], Raised) else write_each E frames)"

text \<open>The loop over \<^verbatim>\<open>range(num_post_frames)\<close>, on the results of the successive fetches.\<close>

fun post_each :: "'f recorder_env \<Rightarrow> 'f option list \<Rightarrow> 'f effect list \<times> status" where
  "post_each E [] = ([], Returned)"
| "post_each E (None # fetches) =
     (case post_each E fetches of (tr, st) \<Rightarrow> (Fetch # Sleep # tr, st))"
| "post_each E (Some f # fetches) =
     (if write_raises E f then ([Fetch], Raised)
      else (case post_each E fetches of (tr, st) \<Rightarrow> (Fetch # Write f # Sleep # tr, st)))"

text \<open>
  \<^verbatim>\<open>num_post_frames = int(self.fps * self.post_event_seconds)\<close>; \<^verbatim>\<open>range\<close> of a negative
  number is empty. \<open>live i\<close> is what the \<open>i\<close>-th call of \<^verbatim>\<open>current_frame_func\<close> returns.
\<close>

definition num_post_frames :: "event_clip_recorder \<Rightarrow> nat" where
  "num_post_frames R = nat (fps R * post_event_seconds R)"

definition write_post_frames :: "event_clip_recorder \<Rightarrow> 'f recorder_env \<Rightarrow> (nat \<Rightarrow> 'f option)
                  \<Rightarrow> 'f effect list \<times> status" where
  "write_post_frames R E live =
     (if fps R = 0 then ([], Raised) else post_each E (map live [0..<num_post_frames R]))"

definition legacy_record_clip :: "event_clip_recorder \<Rightarrow> 'f recorder_env \<Rightarrow> 'f list \<Rightarrow> (nat \<Rightarrow> 'f option)
                  \<Rightarrow> 'f effect list \<times> status" where
  "legacy_record_clip R E pre_frames live =
     (case pre_frames of
        [] \<Rightarrow> ([Log ERROR], Returned)
      | first # _ \<Rightarrow>
         if open_raises E then ([], Raised)
         else if \<not> is_opened E then ([Log ERROR], Returned)
         else
          (case write_frames R E pre_frames of
             (tr1, Raised) \<Rightarrow> (Open first # Log INFO # tr1, Raised)
           | (tr1, Returned) \<Rightarrow>
              (case write_post_frames R E live of
                 (tr2, Raised) \<Rightarrow> (Open first # Log INFO # tr1 @ tr2, Raised)
               | (tr2, Returned) \<Rightarrow>
                   (Open first # Log INFO # tr1 @ tr2 @ [Release, Log INFO], Returned))))"

text \<open>The frames that were there among the results of the fetches.\<close>

fun present :: "'f option list \<Rightarrow> 'f list" where
  "present [] = []"
| "present (None # xs) = present xs"
| "present (Some f # xs) = f # present xs"

text \<open>A recorder and an outside world for the examples: writing the frame \<open>7\<close> raises.\<close>

definition sample_recorder :: event_clip_recorder where
  "sample_recorder = \<lparr>fps = 2, post_event_seconds = 1\<rparr>"

definition sample_env :: "nat recorder_env" where
  "sample_env = \<lparr>makedirs_raises = False, open_raises = False, is_opened = True,
                  write_raises = (\<lambda>f. f = 7)\<rparr>"

section \<open>The detector \<^verbatim>\<open>AIDetector\<close>\<close>

text \<open>One row of \<^verbatim>\<open>results.xyxy[0]\<close>: the corners of the box, the confidence and the class.\<close>

record detection =
  x1 :: real
  y1 :: real
  x2 :: real
  y2 :: real
  conf :: real
  cls :: real

text \<open>\<^verbatim>\<open>int(x)\<close> on a float truncates towards zero.\<close>

definition py_int :: "real \<Rightarrow> int" where
  "py_int x = (if 0 \<le> x then \<lfloor>x\<rfloor> else \<lceil>x\<rceil>)"

text \<open>
  OpenCV and the YOLOv5 model are outside the program. \<open>infer\<close> is the colour conversion,
  the resizing, the run of the model and the reading of its result; \<open>names\<close> is the
  model's table of class names; \<open>draw\<close> is the drawing of one box and its label on the
  output frame. Each of them may raise.
\<close>

record 'f detector_env =
  infer :: "'f \<Rightarrow> error + detection list"
  names :: "int \<Rightarrow> string option"
  draw :: "'f \<Rightarrow> detection \<Rightarrow> string \<Rightarrow> error + 'f"

text \<open>
  The loop over the detections, on the pair of the \<open>detected\<close> flag and the output frame:
  a detection below the threshold is skipped, any other is drawn and sets the flag.
\<close>

fun annotate :: "'f detector_env \<Rightarrow> real \<Rightarrow> detection list \<Rightarrow> bool \<times> 'f \<Rightarrow> error + bool \<times> 'f" where
  "annotate E detection_threshold [] acc = Inr acc"
| "annotate E detection_threshold (det # detections) (detected, output_frame) =
     (if conf det < detection_threshold then
        annotate E detection_threshold detections (detected, output_frame)
      else
       (case names E (py_int (cls det)) of
          None \<Rightarrow> Inl (KeyError ''names'')
        | Some label \<Rightarrow>
           (case draw E output_frame det label of
              Inl e \<Rightarrow> Inl e
            | Inr output_frame' \<Rightarrow> annotate E detection_threshold detections (True, output_frame'))))"

text \<open>The body of the \<^verbatim>\<open>try\<close> block of \<^verbatim>\<open>detect\<close>; the output frame starts as a copy of the frame.\<close>

definition detect_try :: "'f detector_env \<Rightarrow> real \<Rightarrow> 'f \<Rightarrow> error + bool \<times> 'f" where
  "detect_try E detection_threshold frame =
     (case infer E frame of
        Inl e \<Rightarrow> Inl e
      | Inr detections \<Rightarrow> annotate E detection_threshold detections (False, frame))"

text \<open>
  \<^verbatim>\<open>detect\<close>: the \<^verbatim>\<open>try\<close> block and the \<^verbatim>\<open>except Exception\<close> clause, which logs the error
  and returns \<^verbatim>\<open>(False, frame)\<close>. \<open>Inl\<close> would be an exception that leaves \<^verbatim>\<open>detect\<close>.
\<close>

definition detect :: "'f detector_env \<Rightarrow> real \<Rightarrow> 'f \<Rightarrow> error + bool \<times> 'f" where
  "detect E detection_threshold frame =
     (case detect_try E detection_threshold frame of
        Inl e \<Rightarrow> Inr (False, frame)
      | Inr result \<Rightarrow> Inr result)"

text \<open>
  An outside world for the examples: the model fails on the frame \<open>0\<close> and otherwise finds
  one object with confidence \<open>0.2\<close> and one with \<open>0.9\<close>; drawing adds \<open>100\<close> to the frame.
\<close>

definition sample_detector_env :: "nat detector_env" where
  "sample_detector_env =
     \<lparr>infer = (\<lambda>f. if f = 0 then Inl (RuntimeError ''model'')
                   else Inr [\<lparr>x1 = 0, y1 = 0, x2 = 1, y2 = 1, conf = 2 / 10, cls = 0\<rparr>,
                             \<lparr>x1 = 1, y1 = 1, x2 = 2, y2 = 2, conf = 9 / 10, cls = 0\<rparr>]),
      names = (\<lambda>i. if i = 0 then Some ''can'' else None),
      draw = (\<lambda>f d l. Inr (f + 100))\<rparr>"

section \<open>Configuration validation\<close>

lemma check_required_ok:
  "cfg ''fps'' = Some f \<Longrightarrow> cfg ''pre_event_seconds'' = Some p \<Longrightarrow> cfg ''post_event_seconds'' = Some q
   \<Longrightarrow> check_required cfg required_keys = Inr ()"
  by (simp add: required_keys_def)

lemma check_required_missing:
  "cfg ''fps'' = None \<or> cfg ''pre_event_seconds'' = None \<or> cfg ''post_event_seconds'' = None
   \<Longrightarrow> \<exists>m. check_required cfg required_keys = Inl (ValueError m)"
  by (auto simp add: required_keys_def)

lemma validate_config_present:
  assumes "cfg ''fps'' = Some f" "cfg ''pre_event_seconds'' = Some p" "cfg ''post_event_seconds'' = Some q"
  shows "validate_config cfg =
           (if \<not> (1 \<le> f \<and> f \<le> 60) then Inl (ValueError ''FPS must be between 1 and 60'')
            else if p < 0 then Inl (ValueError ''Pre-event seconds cannot be negative'')
            else if q < 0 then Inl (ValueError ''Post-event seconds cannot be negative'')
            else Inr ())"
  using assms check_required_ok[OF assms]
  by (simp add: validate_config_def config_item_def)

lemma validate_config_missing:
  assumes "cfg ''fps'' = None \<or> cfg ''pre_event_seconds'' = None \<or> cfg ''post_event_seconds'' = None"
  shows "\<exists>m. validate_config cfg = Inl (ValueError m)"
  using check_required_missing[OF assms] by (auto simp add: validate_config_def)

text \<open>
  C4. For a configuration holding \<open>fps\<close>, \<open>pre_event_seconds\<close> and \<open>post_event_seconds\<close>,
  constructing \<^verbatim>\<open>CanAI\<close> raises \<^verbatim>\<open>ValueError\<close> exactly when \<open>fps\<close> lies outside \<open>[1, 60]\<close> or
  one of the two durations is negative; a configuration that lacks one of the three keys
  is rejected with \<^verbatim>\<open>ValueError\<close> as well.
\<close>

theorem CanAI_init_rejects_iff:
  "(cfg ''fps'' = Some f \<and> cfg ''pre_event_seconds'' = Some p \<and> cfg ''post_event_seconds'' = Some q
      \<longrightarrow> ((\<exists>m. (CanAI_init cfg now :: error + 'f canai) = Inl (ValueError m))
            \<longleftrightarrow> (f < 1 \<or> 60 < f \<or> p < 0 \<or> q < 0))
         \<and> ((\<exists>s. (CanAI_init cfg now :: error + 'f canai) = Inr s)
            \<longleftrightarrow> \<not> (f < 1 \<or> 60 < f \<or> p < 0 \<or> q < 0)))
   \<and> (cfg ''fps'' = None \<or> cfg ''pre_event_seconds'' = None \<or> cfg ''post_event_seconds'' = None
      \<longrightarrow> (\<exists>m. (CanAI_init cfg now :: error + 'f canai) = Inl (ValueError m)))"
proof (intro conjI impI)
  assume present: "cfg ''fps'' = Some f \<and> cfg ''pre_event_seconds'' = Some p \<and> cfg ''post_event_seconds'' = Some q"
  then have v: "validate_config cfg =
           (if \<not> (1 \<le> f \<and> f \<le> 60) then Inl (ValueError ''FPS must be between 1 and 60'')
            else if p < 0 then Inl (ValueError ''Pre-event seconds cannot be negative'')
            else if q < 0 then Inl (ValueError ''Post-event seconds cannot be negative'')
            else Inr ())"
    using validate_config_present by blast
  show "(\<exists>m. (CanAI_init cfg now :: error + 'f canai) = Inl (ValueError m))
            \<longleftrightarrow> (f < 1 \<or> 60 < f \<or> p < 0 \<or> q < 0)"
    by (auto simp add: CanAI_init_def v)
  show "(\<exists>s. (CanAI_init cfg now :: error + 'f canai) = Inr s)
            \<longleftrightarrow> \<not> (f < 1 \<or> 60 < f \<or> p < 0 \<or> q < 0)"
    by (auto simp add: CanAI_init_def v)
next
  assume "cfg ''fps'' = None \<or> cfg ''pre_event_seconds'' = None \<or> cfg ''post_event_seconds'' = None"
  from validate_config_missing[OF this]
  show "\<exists>m. (CanAI_init cfg now :: error + 'f canai) = Inl (ValueError m)"
    by (auto simp add: CanAI_init_def)
qed

theorem CanAI_init_rejects_iff_witness:
  "(\<exists>s. (CanAI_init [''fps'' \<mapsto> 30, ''pre_event_seconds'' \<mapsto> 2, ''post_event_seconds'' \<mapsto> 5] 0 :: error + nat canai) = Inr s)
   \<and> (\<exists>m. (CanAI_init [''fps'' \<mapsto> 61, ''pre_event_seconds'' \<mapsto> 2, ''post_event_seconds'' \<mapsto> 5] 0 :: error + nat canai) = Inl (ValueError m))
   \<and> (\<exists>m. (CanAI_init [''fps'' \<mapsto> 30, ''post_event_seconds'' \<mapsto> 5] 0 :: error + nat canai) = Inl (ValueError m))"
  using CanAI_init_rejects_iff [where 'f = nat, of "[''fps'' \<mapsto> 30, ''pre_event_seconds'' \<mapsto> 2, ''post_event_seconds'' \<mapsto> 5]" 30 2 5 0]
        CanAI_init_rejects_iff [where 'f = nat, of "[''fps'' \<mapsto> 61, ''pre_event_seconds'' \<mapsto> 2, ''post_event_seconds'' \<mapsto> 5]" 61 2 5 0]
        CanAI_init_rejects_iff [where 'f = nat, of "[''fps'' \<mapsto> 30, ''post_event_seconds'' \<mapsto> 5]" 30 2 5 0]
  by simp

section \<open>The trigger of the orchestrator\<close>











lemma sample_init:
  "(CanAI_init sample_config 0 :: error + nat canai) =
     Inr \<lparr>config = sample_config, recorded_detection = False, frame_counter = 0, start_time = 0,
          last_detection_time = 0, recording_in_progress = False, recorder_threads = []\<rparr>"
  by (simp add: CanAI_init_def validate_config_def required_keys_def config_item_def sample_config_def)


section \<open>Frames that do not reach the high threshold\<close>

text \<open>
  The two \<^verbatim>\<open>elif\<close> branches of \<^verbatim>\<open>_handle_detection\<close> stand under the test of the high
  threshold. A frame none of whose confidences reaches it is therefore handled by doing
  nothing at all.
\<close>

lemma handle_detection_no_high:
  "\<not> list_ex (\<lambda>c. config_get (config s) ''detection_threshold'' (7 / 10) \<le> c) confidence
   \<Longrightarrow> handle_detection now confidence queue s = Inr s"
  by (simp add: handle_detection_def)


text \<open>
  C3. A frame whose confidence lies between the low and the high threshold leaves the whole
  state as it was: no thread is started and no other field changes, and
  \<open>last_detection_time\<close> is not refreshed either.
\<close>

theorem handle_detection_between_thresholds_unchanged:
  assumes "list_ex (\<lambda>c. config_get (config s) ''low_detection_threshold'' (3 / 10) \<le> c) confidence"
    and "\<not> list_ex (\<lambda>c. config_get (config s) ''detection_threshold'' (7 / 10) \<le> c) confidence"
  shows "handle_detection now confidence queue s = Inr s"
  using assms(2) by (rule handle_detection_no_high)

theorem handle_detection_between_thresholds_unchanged_witness:
  "\<exists>s0 :: nat canai.
      CanAI_init sample_config 0 = Inr s0
    \<and> list_ex (\<lambda>c. config_get (config s0) ''low_detection_threshold'' (3 / 10) \<le> c) [1 / 2]
    \<and> \<not> list_ex (\<lambda>c. config_get (config s0) ''detection_threshold'' (7 / 10) \<le> c) [1 / 2]
    \<and> handle_detection 10 [1 / 2] [1, 2] s0 = Inr s0
    \<and> last_detection_time s0 = 0"
proof -
  let ?s0 = "\<lparr>config = sample_config, recorded_detection = False, frame_counter = 0, start_time = 0,
          last_detection_time = 0, recording_in_progress = False, recorder_threads = []\<rparr> :: nat canai"
  have lo: "list_ex (\<lambda>c. config_get (config ?s0) ''low_detection_threshold'' (3 / 10) \<le> c) [1 / 2]"
    by (simp add: config_get_def sample_config_def)
  have hi: "\<not> list_ex (\<lambda>c. config_get (config ?s0) ''detection_threshold'' (7 / 10) \<le> c) [1 / 2]"
    by (simp add: config_get_def sample_config_def)
  from handle_detection_between_thresholds_unchanged[OF lo hi, of 10 "[1, 2]"] lo hi sample_init
  show ?thesis by simp
qed



text \<open>
  The flag is cleared by \<^verbatim>\<open>_handle_detection\<close> only on a frame with a confidence at or above
  the high threshold and none at or above the low one, which needs the low threshold above
  the high one.
\<close>

lemma handle_detection_clears_flag_only_if:
  assumes "handle_detection now confidence queue s = Inr s'" and "recorded_detection s" and "\<not> recorded_detection s'"
  shows "list_ex (\<lambda>c. config_get (config s) ''detection_threshold'' (7 / 10) \<le> c) confidence
       \<and> \<not> list_ex (\<lambda>c. config_get (config s) ''low_detection_threshold'' (3 / 10) \<le> c) confidence"
  using assms by (auto simp add: handle_detection_def Let_def split: if_splits sum.splits)

text \<open>Nothing in \<^verbatim>\<open>CanAI\<close> sets the flag: it is false in every state reached from construction.\<close>

lemma handle_detection_flag_stays_false:
  "\<not> recorded_detection s \<Longrightarrow> handle_detection now confidence queue s = Inr s' \<Longrightarrow> \<not> recorded_detection s'"
  by (auto simp add: handle_detection_def Let_def split: if_splits sum.splits)

lemma step_flag_stays_false:
  "\<not> recorded_detection s \<Longrightarrow> step s a = Inr s' \<Longrightarrow> \<not> recorded_detection s'"
  by (cases a) (auto simp add: record_clip_finished_def dest: handle_detection_flag_stays_false split: if_splits)

lemma run_activities_flag_stays_false:
  "\<not> recorded_detection s \<Longrightarrow> run_activities s acts = Inr s' \<Longrightarrow> \<not> recorded_detection s'"
proof (induction acts arbitrary: s)
  case Nil
  then show ?case by simp
next
  case (Cons a acts)
  from Cons.prems(2) obtain s1 where s1: "step s a = Inr s1" and rest: "run_activities s1 acts = Inr s'"
    by (auto split: sum.splits)
  from Cons.IH[OF step_flag_stays_false[OF Cons.prems(1) s1] rest] show ?case .
qed

text \<open>The earlier orchestrator does clear its flag on a frame without a detection.\<close>

lemma app_handle_frame_clears_flag:
  "\<not> detected \<Longrightarrow> \<not> app_recorded_detection (app_handle_frame detected queue a)"
  by (simp add: app_handle_frame_def)

lemma app_handle_frame_starts_once:
  "detected \<Longrightarrow> \<not> app_recorded_detection a \<Longrightarrow>
     app_handle_frame detected queue a = a\<lparr>app_threads := app_threads a @ [queue], app_recorded_detection := True\<rparr>"
  by (simp add: app_handle_frame_def)

section \<open>The frame buffer\<close>












text \<open>Evaluation of the handler on concrete calls.\<close>

lemmas handler_eval = add_frame_def VideoStreamHandler_init_def queue_full_def queue_get_def queue_put_def





section \<open>Frames and timestamps\<close>

text \<open>
  C6. With capacity one, two frames added one second apart: the second call finds the queue
  full and takes the first frame out, and leaves the first timestamp in the list. The
  buffer then holds one frame and the list two timestamps, and \<^verbatim>\<open>_get_timed_frames\<close>
  pairs the second frame with the time of the first.
\<close>

theorem add_frame_timestamps_not_parallel:
  "add_frames [(0, 1::nat), (1, 2)] (VideoStreamHandler_init 1)
     = Some \<lparr>maxsize = 1, frame_buffer = [2], current_frame = Some 2, frame_timestamps = [0, 1]\<rparr>
   \<and> get_timed_frames \<lparr>maxsize = 1, frame_buffer = [2::nat], current_frame = Some 2, frame_timestamps = [0, 1]\<rparr>
     = [(2, 0)]"
  by (simp add: handler_eval get_timed_frames_def)

text \<open>
  Once the list of timestamps is longer than the buffer, \<^verbatim>\<open>_maintain_buffer\<close> can ask an
  empty queue for a frame: the call blocks with the lock held. Here the fourth call does.
\<close>

lemma add_frame_blocks:
  "add_frames [(0, 1::nat), (1, 2), (5 / 2, 3)] (VideoStreamHandler_init 1)
     = Some \<lparr>maxsize = 1, frame_buffer = [3], current_frame = Some 3, frame_timestamps = [1, 5 / 2]\<rparr>
   \<and> add_frames [(0, 1::nat), (1, 2), (5 / 2, 3), (10, 4)] (VideoStreamHandler_init 1) = None"
  by (simp add: handler_eval)

text \<open>
  Window eviction alone keeps the two in step: as long as every call finds the queue not
  full, frames and timestamps have the same length, and the call returns.
\<close>

lemma maintain_buffer_same_length:
  "length q = length ts \<Longrightarrow> \<exists>q' ts'. maintain_buffer now q ts = Some (q', ts') \<and> length q' = length ts'"
proof (induction ts arbitrary: q)
  case Nil
  then show ?case by simp
next
  case (Cons t ts)
  from Cons.prems obtain x qr where q: "q = x # qr" and l: "length qr = length ts"
    by (cases q) auto
  show ?case
  proof (cases "now - t > 2")
    case True
    with Cons.IH[OF l] q show ?thesis by (simp add: queue_get_def)
  next
    case False
    with Cons.prems show ?thesis by simp
  qed
qed

lemma add_frame_unbounded_parallel:
  assumes "maxsize h \<le> 0" and "length (frame_buffer h) = length (frame_timestamps h)"
  shows "\<exists>h'. add_frame now frame h = Some h' \<and> length (frame_buffer h') = length (frame_timestamps h')
              \<and> maxsize h' = maxsize h"
proof -
  from maintain_buffer_same_length[OF assms(2)] obtain q' ts'
    where "maintain_buffer now (frame_buffer h) (frame_timestamps h) = Some (q', ts')" "length q' = length ts'"
    by blast
  with assms(1) show ?thesis by (simp add: add_frame_def queue_full_def queue_put_def)
qed

section \<open>The buffering of the earlier handler\<close>

lemma buffer_frame_bounded_fifo:
  assumes "0 < max_pre_frames" and "int (length q) \<le> max_pre_frames"
  shows "\<exists>q' k. buffer_frame max_pre_frames q frame = Some q' \<and> q' = drop k q @ [frame]
              \<and> k \<le> 1 \<and> int (length q') \<le> max_pre_frames"
proof (cases "queue_full max_pre_frames q")
  case False
  with assms have "buffer_frame max_pre_frames q frame = Some (drop 0 q @ [frame])
      \<and> int (length (drop 0 q @ [frame])) \<le> max_pre_frames"
    by (simp add: buffer_frame_def queue_put_def queue_full_def)
  then show ?thesis by blast
next
  case True
  with assms obtain x qr where q: "q = x # qr" by (cases q) (auto simp add: queue_full_def)
  with True assms have "buffer_frame max_pre_frames q frame = Some (drop 1 q @ [frame])
      \<and> int (length (drop 1 q @ [frame])) \<le> max_pre_frames"
    by (simp add: buffer_frame_def queue_put_def queue_full_def queue_get_def)
  then show ?thesis by blast
qed

section \<open>The clip recorder\<close>

lemma written_append: "written (xs @ ys) = written xs @ written ys"
  by (induction xs rule: written.induct) simp_all





lemma record_clip_Some:
  assumes "record_clip R E pre start ticks = Some tr"
  obtains tr0 st where "record_clip_try R E pre start ticks = Some (tr0, st)"
    and "tr = tr0 @ (if st = Raised then [Log ERROR] else []) @ (if list_ex is_Open tr0 then [Release] else [])"
  using assms by (auto simp add: record_clip_def split: option.splits)




text \<open>The call comes to an end as soon as the clock passes the post-event duration.\<close>

lemma post_loop_returns:
  "list_ex (\<lambda>(t, fetched). \<not> t - start < real_of_int (post_event_seconds R)) ticks
   \<Longrightarrow> \<exists>r. post_loop R E start ticks = Some r"
proof (induction ticks)
  case Nil
  then show ?case by simp
next
  case (Cons tick ticks)
  obtain t fetched where tick: "tick = (t, fetched)" by (cases tick)
  obtain tr0 st0 where r: "post_round R E fetched = (tr0, st0)" by (cases "post_round R E fetched")
  show ?case
  proof (cases "t - start < real_of_int (post_event_seconds R)")
    case False
    with tick show ?thesis by simp
  next
    case True
    with Cons.prems tick have "list_ex (\<lambda>(t, fetched). \<not> t - start < real_of_int (post_event_seconds R)) ticks"
      by simp
    from Cons.IH[OF this] obtain tr' st' where "post_loop R E start ticks = Some (tr', st')" by auto
    with tick True r show ?thesis by (cases st0) auto
  qed
qed

lemma record_clip_returns:
  assumes "list_ex (\<lambda>(t, fetched). \<not> t - start < real_of_int (post_event_seconds R)) ticks"
  shows "\<exists>tr. record_clip R E pre start ticks = Some tr"
proof -
  from post_loop_returns[OF assms] obtain tr2 st2 where "post_loop R E start ticks = Some (tr2, st2)"
    by fastforce
  then show ?thesis
    by (cases "write_pre_frames E pre"; cases st2)
       (auto simp add: record_clip_def record_clip_try_def split: list.splits status.splits)
qed



text \<open>The earlier recorder logs an error instead and makes no directory.\<close>

lemma legacy_record_clip_no_frames:
  "legacy_record_clip R E [] live = ([Log ERROR], Returned)"
  by (simp add: legacy_record_clip_def)

section \<open>The frames of a clip\<close>







text \<open>Evaluation of the earlier recorder on concrete calls.\<close>

lemmas legacy_eval = legacy_record_clip_def write_frames_def write_post_frames_def num_post_frames_def
  sample_recorder_def sample_env_def

lemma sample_legacy_clip:
  "legacy_record_clip sample_recorder sample_env [1, 2] (\<lambda>i. Some (10 + i))
     = ([Open 1, Log INFO, Write 1, Sleep, Write 2, Sleep, Fetch, Write 10, Sleep,
         Fetch, Write 11, Sleep, Release, Log INFO], Returned)"
  by (simp add: legacy_eval upt_rec)


text \<open>
  The earlier recorder releases the writer only at the end of a recording that went
  through: an exception raised by a write leaves \<^verbatim>\<open>record_clip\<close> with the writer open.
\<close>

lemma legacy_record_clip_raise_no_release:
  "legacy_record_clip sample_recorder sample_env [1, 7, 2] (\<lambda>i. Some (10 + i))
     = ([Open 1, Log INFO, Write 1, Sleep], Raised)"
  by (simp add: legacy_eval)

section \<open>The frames of a clip of the package's recorder\<close>

lemma write_pre_frames_ok:
  "\<forall>f \<in> set fs. \<not> write_raises E f \<Longrightarrow>
     \<exists>tr. write_pre_frames E fs = (tr, Returned) \<and> written tr = fs \<and> Fetch \<notin> set tr"
  by (induction fs) auto

lemma post_loop_ok:
  assumes "0 < fps R" and "\<forall>f. \<not> write_raises E f"
  shows "post_loop R E start ticks = Some (tr, st) \<Longrightarrow>
     st = Returned
     \<and> written tr = present (map snd (takeWhile (\<lambda>(t, fetched). t - start < real_of_int (post_event_seconds R)) ticks))
     \<and> length (filter (\<lambda>e. e = Fetch) tr)
         = length (takeWhile (\<lambda>(t, fetched). t - start < real_of_int (post_event_seconds R)) ticks)"
proof (induction ticks arbitrary: tr st)
  case Nil
  then show ?case by simp
next
  case (Cons tick ticks)
  obtain t fetched where tick: "tick = (t, fetched)" by (cases tick)
  show ?case
  proof (cases "t - start < real_of_int (post_event_seconds R)")
    case False
    with Cons.prems tick show ?thesis by simp
  next
    case True
    from assms have r: "post_round R E fetched
        = (case fetched of None \<Rightarrow> [Fetch, Sleep] | Some f \<Rightarrow> [Fetch, Write f, Sleep], Returned)"
      by (simp add: post_round_def split: option.splits)
    with Cons.prems tick True obtain tr' where rest: "post_loop R E start ticks = Some (tr', st)"
      and tr: "tr = (case fetched of None \<Rightarrow> [Fetch, Sleep] | Some f \<Rightarrow> [Fetch, Write f, Sleep]) @ tr'"
      by (auto split: option.splits)
    from Cons.IH[OF rest] tr tick True show ?thesis
      by (cases fetched) (simp_all add: written_append)
  qed
qed

text \<open>
  The package's recorder writes the pre-event frames in their order and then, for as long
  as the clock stays within the post-event duration, fetches the live frame once per round
  and writes it when it is there. How many rounds there are is decided by the clock.
\<close>

lemma record_clip_frames:
  assumes "pre \<noteq> []" and "\<not> makedirs_raises E" and "\<not> open_raises E" and "0 < fps R"
    and "\<forall>f. \<not> write_raises E f" and "record_clip R E pre start ticks = Some tr"
  shows "written tr = pre @ present (map snd (takeWhile (\<lambda>(t, fetched). t - start < real_of_int (post_event_seconds R)) ticks))
       \<and> length (filter (\<lambda>e. e = Fetch) tr)
           = length (takeWhile (\<lambda>(t, fetched). t - start < real_of_int (post_event_seconds R)) ticks)
       \<and> last tr = Release"
proof -
  from assms(1) obtain first rest where p: "pre = first # rest" by (cases pre) auto
  from assms(5) have "\<forall>f \<in> set pre. \<not> write_raises E f" by simp
  from write_pre_frames_ok[OF this] obtain tr1 where w1: "write_pre_frames E pre = (tr1, Returned)"
    and wr1: "written tr1 = pre" and nf1: "Fetch \<notin> set tr1"
    by blast
  from assms(6) obtain tr0 st where t: "record_clip_try R E pre start ticks = Some (tr0, st)"
    and tr: "tr = tr0 @ (if st = Raised then [Log ERROR] else []) @ (if list_ex is_Open tr0 then [Release] else [])"
    by (rule record_clip_Some)
  from t p assms(2,3) w1 obtain tr2 st2 where pl: "post_loop R E start ticks = Some (tr2, st2)"
    by (auto simp add: record_clip_try_def split: option.splits)
  from post_loop_ok[OF assms(4,5) pl] have st2: "st2 = Returned"
    and wr2: "written tr2 = present (map snd (takeWhile (\<lambda>(t, fetched). t - start < real_of_int (post_event_seconds R)) ticks))"
    and n2: "length (filter (\<lambda>e. e = Fetch) tr2)
         = length (takeWhile (\<lambda>(t, fetched). t - start < real_of_int (post_event_seconds R)) ticks)"
    by simp_all
  from t p assms(2,3) w1 pl st2 have tr0: "tr0 = MakeDirs # Open first # tr1 @ tr2 @ [Log INFO]" and st: "st = Returned"
    by (auto simp add: record_clip_try_def)
  from tr tr0 st have full: "tr = MakeDirs # Open first # tr1 @ tr2 @ [Log INFO, Release]" by simp
  from nf1 have "filter (\<lambda>e. e = Fetch) tr1 = []" by (auto simp add: filter_empty_conv)
  with full wr1 wr2 n2 show ?thesis by (simp add: written_append)
qed

section \<open>The detector\<close>

lemma annotate_all_below:
  "list_all (\<lambda>d. conf d < thr) dets \<Longrightarrow> annotate E thr dets acc = Inr acc"
proof (induction dets)
  case Nil
  then show ?case by simp
next
  case (Cons d dets)
  then show ?case by (cases acc) simp
qed

lemma annotate_flag:
  "annotate E thr dets (detected, out0) = Inr (True, out) \<Longrightarrow>
     detected \<or> (\<exists>d \<in> set dets. thr \<le> conf d)"
proof (induction dets arbitrary: detected out0)
  case Nil
  then show ?case by simp
next
  case (Cons d dets)
  show ?case
  proof (cases "conf d < thr")
    case True
    with Cons.prems have "annotate E thr dets (detected, out0) = Inr (True, out)" by simp
    from Cons.IH[OF this] show ?thesis by auto
  next
    case False
    then show ?thesis by auto
  qed
qed

text \<open>
  C10. \<^verbatim>\<open>detect\<close> returns a pair of a flag and a frame for every frame, whatever the
  outside does, and lets no exception out. When the \<^verbatim>\<open>try\<close> block raises, the pair is
  \<open>False\<close> and the frame that was passed in. When no detection reaches the threshold the
  flag is \<open>False\<close> and the frame comes back without a box drawn on it; the flag is \<open>True\<close>
  only when some detection reaches the threshold.
\<close>

theorem detect_total:
  "(\<exists>detected out. detect E thr frame = Inr (detected, out))
   \<and> (\<forall>e. detect_try E thr frame = Inl e \<longrightarrow> detect E thr frame = Inr (False, frame))
   \<and> (\<forall>dets. infer E frame = Inr dets \<and> list_all (\<lambda>d. conf d < thr) dets
         \<longrightarrow> detect E thr frame = Inr (False, frame))
   \<and> (\<forall>out. detect E thr frame = Inr (True, out)
         \<longrightarrow> (\<exists>dets d. infer E frame = Inr dets \<and> d \<in> set dets \<and> thr \<le> conf d))"
proof (intro conjI allI impI)
  show "\<exists>detected out. detect E thr frame = Inr (detected, out)"
    by (cases "detect_try E thr frame") (auto simp add: detect_def)
next
  fix e
  assume "detect_try E thr frame = Inl e"
  then show "detect E thr frame = Inr (False, frame)" by (simp add: detect_def)
next
  fix dets
  assume "infer E frame = Inr dets \<and> list_all (\<lambda>d. conf d < thr) dets"
  then show "detect E thr frame = Inr (False, frame)"
    by (simp add: detect_def detect_try_def annotate_all_below)
next
  fix out
  assume t: "detect E thr frame = Inr (True, out)"
  show "\<exists>dets d. infer E frame = Inr dets \<and> d \<in> set dets \<and> thr \<le> conf d"
  proof (cases "infer E frame")
    case (Inl e)
    with t show ?thesis by (simp add: detect_def detect_try_def)
  next
    case (Inr dets)
    with t have "annotate E thr dets (False, frame) = Inr (True, out)"
      by (auto simp add: detect_def detect_try_def split: sum.splits)
    from annotate_flag[OF this] Inr show ?thesis by auto
  qed
qed

text \<open>Evaluation of the detector on concrete frames.\<close>

lemmas detector_eval = detect_def detect_try_def sample_detector_env_def py_int_def

theorem detect_total_witness:
  "detect_try sample_detector_env (1 / 2) 0 = Inl (RuntimeError ''model'')
   \<and> detect sample_detector_env (1 / 2) 0 = Inr (False, 0)
   \<and> infer sample_detector_env 5 = Inr [\<lparr>x1 = 0, y1 = 0, x2 = 1, y2 = 1, conf = 2 / 10, cls = 0\<rparr>,
                             \<lparr>x1 = 1, y1 = 1, x2 = 2, y2 = 2, conf = 9 / 10, cls = 0\<rparr>]
   \<and> list_all (\<lambda>d. conf d < 95 / 100) [\<lparr>x1 = 0, y1 = 0, x2 = 1, y2 = 1, conf = 2 / 10, cls = 0\<rparr>,
                             \<lparr>x1 = 1, y1 = 1, x2 = 2, y2 = 2, conf = 9 / 10, cls = 0\<rparr>]
   \<and> detect sample_detector_env (95 / 100) 5 = Inr (False, 5)
   \<and> detect sample_detector_env (1 / 2) 5 = Inr (True, 105)"
proof -
  have a: "detect_try sample_detector_env (1 / 2) 0 = Inl (RuntimeError ''model'')"
    by (simp add: detector_eval)
  have b: "infer sample_detector_env 5 = Inr [\<lparr>x1 = 0, y1 = 0, x2 = 1, y2 = 1, conf = 2 / 10, cls = 0\<rparr>,
                             \<lparr>x1 = 1, y1 = 1, x2 = 2, y2 = 2, conf = 9 / 10, cls = 0\<rparr>]"
    by (simp add: detector_eval)
  have c: "list_all (\<lambda>d. conf d < 95 / 100) [\<lparr>x1 = 0, y1 = 0, x2 = 1, y2 = 1, conf = 2 / 10, cls = 0\<rparr>,
                             \<lparr>x1 = 1, y1 = 1, x2 = 2, y2 = 2, conf = 9 / 10, cls = 0\<rparr>]"
    by simp
  have d: "detect sample_detector_env (1 / 2) 5 = Inr (True, 105)"
    by (simp add: detector_eval)
  from detect_total[of sample_detector_env "1 / 2" 0] a
  have e: "detect sample_detector_env (1 / 2) 0 = Inr (False, 0)" by blast
  from detect_total[of sample_detector_env "95 / 100" 5] b c
  have f: "detect sample_detector_env (95 / 100) 5 = Inr (False, 5)" by blast
  from a b c d e f show ?thesis by simp
qed

end
